theory Spec2Isabelle
  imports Complex_Main
begin

section \<open>Python values carried by a decoded JSON event\<close>

text \<open>
  The handler \<^verbatim>\<open>on_event\<close> of \<^verbatim>\<open>infra/lambda/scale_nodegroup/handler.py\<close> receives a
  dictionary decoded from JSON. A field of it is \<^verbatim>\<open>None\<close>, a \<^verbatim>\<open>bool\<close>, an unbounded
  \<^verbatim>\<open>int\<close>, a \<^verbatim>\<open>float\<close>, a \<^verbatim>\<open>str\<close>, a list or a nested dictionary.

  A finite float is a rational number; every IEEE double is one, so a statement about all
  \<open>Finite q\<close> covers every finite double. The decoder also produces the two infinities
  (\<^verbatim>\<open>1e999\<close>, \<^verbatim>\<open>Infinity\<close>) and \<^verbatim>\<open>NaN\<close>.

  A \<^verbatim>\<open>str\<close> is a list of code points; the model covers the code points below 256,
  one \<open>char\<close> each.
\<close>

datatype pyfloat = Finite rat | PosInf | NegInf | NaN

datatype pyval =
    PyNone
  | PyBool bool
  | PyInt int
  | PyFloat pyfloat
  | PyStr string
  | PyList "pyval list"
  | PyDict "(string \<times> pyval) list"

text \<open>
  The exceptions that end an invocation. A \<^verbatim>\<open>ValueError\<close> is kept with the data its
  message is formatted from: line 26 formats \<^verbatim>\<open>{value!r}\<close>; the built-in \<^verbatim>\<open>int\<close>
  formats the rejected string (\<^verbatim>\<open>invalid literal for int() with base 10: '...'\<close>, the
  representation cut after 200 characters), reports the number of digits of a literal that
  is too long (\<^verbatim>\<open>Exceeds the limit (4300 digits) for integer string conversion: value has
  N digits\<close>) or \<^verbatim>\<open>cannot convert float NaN to integer\<close>. An infinite float raises
  \<^verbatim>\<open>OverflowError\<close> (\<^verbatim>\<open>cannot convert float infinity to integer\<close>, the same text for
  both signs). \<open>ApiError\<close> stands for whatever \<^verbatim>\<open>update_nodegroup_config\<close> raises.
\<close>

datatype value_error =
    UnableToCoerce pyval
  | InvalidLiteral string
  | ExceedsDigitLimit nat
  | CannotConvertNaN

datatype py_exception =
    ValueError value_error
  | OverflowError
  | TypeError
  | ApiError string

section \<open>The built-in \<^verbatim>\<open>int\<close>\<close>

subsection \<open>On a float: truncation toward zero\<close>

definition int_trunc :: "rat \<Rightarrow> int" where
  "int_trunc q = (if 0 \<le> q then \<lfloor>q\<rfloor> else \<lceil>q\<rceil>)"

fun int_of_float :: "pyfloat \<Rightarrow> py_exception + int" where
  "int_of_float (Finite q) = Inr (int_trunc q)"
| "int_of_float PosInf = Inl OverflowError"
| "int_of_float NegInf = Inl OverflowError"
| "int_of_float NaN = Inl (ValueError CannotConvertNaN)"

subsection \<open>On a string: a base-10 integer literal\<close>

text \<open>
  \<^verbatim>\<open>int(s)\<close> accepts optional whitespace, an optional sign, decimal digits with single
  underscores between digits, and optional whitespace; anything else raises
  \<^verbatim>\<open>ValueError\<close>. Around the literal \<^verbatim>\<open>int\<close> skips the ASCII whitespace
  (tab, LF, VT, FF, CR, space) and, after its translation of non-ASCII whitespace to a
  space, NEL (133) and NBSP (160). \<^verbatim>\<open>str.strip()\<close> strips those and also the
  separators 28..31.

  The interpreter bounds the number of digits of a literal it converts: 4300 unless
  configured otherwise, and the deployed function (Python 3.12, no
  \<^verbatim>\<open>PYTHONINTMAXSTRDIGITS\<close> in its environment) runs with that default. Underscores and
  the sign are not counted, leading zeros are. A literal with more digits raises
  \<^verbatim>\<open>ValueError\<close>, after a misplaced underscore has been reported and before what follows
  the digits is looked at.
\<close>

definition int_max_str_digits :: nat where
  "int_max_str_digits = 4300"

definition is_digit :: "char \<Rightarrow> bool" where
  "is_digit c \<longleftrightarrow> 48 \<le> (of_char c :: nat) \<and> (of_char c :: nat) \<le> 57"

definition digit_value :: "char \<Rightarrow> nat" where
  "digit_value c = of_char c - 48"

definition int_space :: "char \<Rightarrow> bool" where
  "int_space c \<longleftrightarrow> (of_char c :: nat) \<in> {9, 10, 11, 12, 13, 32, 133, 160}"

definition isspace :: "char \<Rightarrow> bool" where
  "isspace c \<longleftrightarrow> (of_char c :: nat) \<in> {9, 10, 11, 12, 13, 28, 29, 30, 31, 32, 133, 160}"

definition strip :: "string \<Rightarrow> string" where
  "strip s = rev (dropWhile isspace (rev (dropWhile isspace s)))"

text \<open>
  \<open>parse_digits acc cnt cs\<close> runs after a digit has been read, with \<open>acc\<close> the value and
  \<open>cnt\<close> the number of digits so far. It reads digits, each optionally preceded by one
  underscore, and returns the value and the number of digits with the unread rest; an
  underscore that no digit follows is an error.
\<close>

fun parse_digits :: "nat \<Rightarrow> nat \<Rightarrow> string \<Rightarrow> (nat \<times> nat \<times> string) option" where
  "parse_digits acc cnt [] = Some (acc, cnt, [])"
| "parse_digits acc cnt (c # cs) =
     (if is_digit c then parse_digits (10 * acc + digit_value c) (Suc cnt) cs
      else if c = CHR ''_'' then
        (case cs of
           [] \<Rightarrow> None
         | d # ds \<Rightarrow>
             if is_digit d then parse_digits (10 * acc + digit_value d) (Suc cnt) ds
             else None)
      else Some (acc, cnt, c # cs))"

definition parse_sign :: "string \<Rightarrow> bool \<times> string" where
  "parse_sign s =
     (case s of
        [] \<Rightarrow> (False, [])
      | c # cs \<Rightarrow>
          if c = CHR ''-'' then (True, cs)
          else if c = CHR ''+'' then (False, cs)
          else (False, c # cs))"

definition int_of_str :: "string \<Rightarrow> value_error + int" where
  "int_of_str s =
     (case parse_sign (dropWhile int_space s) of
        (neg, []) \<Rightarrow> Inl (InvalidLiteral s)
      | (neg, d # ds) \<Rightarrow>
          if is_digit d then
            (case parse_digits (digit_value d) 1 ds of
               None \<Rightarrow> Inl (InvalidLiteral s)
             | Some (n, cnt, rest) \<Rightarrow>
                 if int_max_str_digits < cnt then Inl (ExceedsDigitLimit cnt)
                 else if dropWhile int_space rest = []
                 then Inr (if neg then - int n else int n)
                 else Inl (InvalidLiteral s))
          else Inl (InvalidLiteral s))"

subsection \<open>On any value\<close>

text \<open>
  \<^verbatim>\<open>bool\<close> is a subclass of \<^verbatim>\<open>int\<close>: \<^verbatim>\<open>isinstance(True, int)\<close> holds and
  \<^verbatim>\<open>int(True)\<close> is 1. \<^verbatim>\<open>int\<close> of \<^verbatim>\<open>None\<close>, of a list or of a dictionary raises
  \<^verbatim>\<open>TypeError\<close>.
\<close>

fun isinstance_int :: "pyval \<Rightarrow> bool" where
  "isinstance_int (PyBool b) = True"
| "isinstance_int (PyInt n) = True"
| "isinstance_int v = False"

fun isinstance_float :: "pyval \<Rightarrow> bool" where
  "isinstance_float (PyFloat x) = True"
| "isinstance_float v = False"

fun isinstance_str :: "pyval \<Rightarrow> bool" where
  "isinstance_str (PyStr s) = True"
| "isinstance_str v = False"

fun py_int :: "pyval \<Rightarrow> py_exception + int" where
  "py_int (PyBool b) = Inr (if b then 1 else 0)"
| "py_int (PyInt n) = Inr n"
| "py_int (PyFloat x) = int_of_float x"
| "py_int (PyStr s) =
     (case int_of_str s of
        Inr n \<Rightarrow> Inr n
      | Inl e \<Rightarrow> Inl (ValueError e))"
| "py_int v = Inl TypeError"

text \<open>\<^verbatim>\<open>value.strip()\<close> as a condition: true when the stripped string is not empty.\<close>

fun strip_truthy :: "pyval \<Rightarrow> bool" where
  "strip_truthy (PyStr s) = (strip s \<noteq> [])"
| "strip_truthy v = False"

section \<open>The handler\<close>

text \<open>\<^verbatim>\<open>_coerce_capacity(value, *, default)\<close>, lines 19 to 26, branch by branch.\<close>

definition coerce_capacity :: "pyval \<Rightarrow> int \<Rightarrow> py_exception + int" where
  "coerce_capacity v dflt =
     (if v = PyNone then Inr dflt
      else if isinstance_int v \<or> isinstance_float v then py_int v
      else if isinstance_str v \<and> strip_truthy v then py_int v
      else Inl (ValueError (UnableToCoerce v)))"

text \<open>
  The module-level configuration read from the environment (lines 14 to 16), and
  \<^verbatim>\<open>dict.get\<close>, which answers \<^verbatim>\<open>None\<close> for a missing key.
\<close>

record config =
  CLUSTER_NAME :: string
  NODEGROUP_NAME :: string
  MAX_CAPACITY :: int

type_synonym event = "string \<rightharpoonup> pyval"

definition dict_get :: "event \<Rightarrow> string \<Rightarrow> pyval" where
  "dict_get d k = (case d k of None \<Rightarrow> PyNone | Some v \<Rightarrow> v)"

text \<open>
  Lines 34 to 37 of \<^verbatim>\<open>on_event\<close>: the three coercions in order, the first exception
  ending the computation, then the widening of the maximum.
\<close>

record envelope =
  desired_capacity :: int
  min_capacity :: int
  max_capacity :: int

definition normalize_request :: "config \<Rightarrow> event \<Rightarrow> py_exception + envelope" where
  "normalize_request cfg ev =
     (case coerce_capacity (dict_get ev ''desiredCapacity'') 0 of
        Inl e \<Rightarrow> Inl e
      | Inr desired \<Rightarrow>
     (case coerce_capacity (dict_get ev ''minCapacity'') desired of
        Inl e \<Rightarrow> Inl e
      | Inr minimum \<Rightarrow>
     (case coerce_capacity (dict_get ev ''maxCapacity'') (MAX_CAPACITY cfg) of
        Inl e \<Rightarrow> Inl e
      | Inr requested_max \<Rightarrow>
          Inr \<lparr>desired_capacity = desired, min_capacity = minimum,
               max_capacity = max desired requested_max\<rparr>)))"

text \<open>
  Lines 48 to 64. The external service is a parameter \<open>api\<close>: what the call raises, if
  anything. The state is the list of calls issued so far to
  \<^verbatim>\<open>update_nodegroup_config\<close>; a call is recorded when it is issued, whatever it answers.
  The two log lines change nothing a claim observes and are left out.
\<close>

record scaling_config =
  minSize :: int
  maxSize :: int
  desiredSize :: int

record update_call =
  clusterName :: string
  nodegroupName :: string
  scalingConfig :: scaling_config

definition on_event ::
  "config \<Rightarrow> (update_call \<Rightarrow> py_exception option) \<Rightarrow> event \<Rightarrow> update_call list
     \<Rightarrow> (py_exception + event) \<times> update_call list" where
  "on_event cfg api ev calls =
     (case normalize_request cfg ev of
        Inl e \<Rightarrow> (Inl e, calls)
      | Inr env \<Rightarrow>
          (let call = \<lparr>clusterName = CLUSTER_NAME cfg,
                       nodegroupName = NODEGROUP_NAME cfg,
                       scalingConfig = \<lparr>minSize = min_capacity env,
                                        maxSize = max_capacity env,
                                        desiredSize = desired_capacity env\<rparr>\<rparr>;
               calls' = calls @ [call]
           in case api call of
                Some e \<Rightarrow> (Inl e, calls')
              | None \<Rightarrow>
                  (Inr [''cluster'' \<mapsto> PyStr (CLUSTER_NAME cfg),
                        ''nodegroup'' \<mapsto> PyStr (NODEGROUP_NAME cfg),
                        ''desired'' \<mapsto> PyInt (desired_capacity env),
                        ''min'' \<mapsto> PyInt (min_capacity env),
                        ''max'' \<mapsto> PyInt (max_capacity env)], calls')))"

text \<open>
  A configuration to run the handler on: the ceiling is the default of line 16, the names
  are those the stack of \<^verbatim>\<open>infra/eks_scheduler_stack.py\<close> deploys.
\<close>

definition example_config :: config where
  "example_config =
     \<lparr>CLUSTER_NAME = ''AstronomerEksCluster'', NODEGROUP_NAME = ''AstronomerWorkers'',
      MAX_CAPACITY = 4\<rparr>"

text \<open>
  The raw value that the message of a \<^verbatim>\<open>ValueError\<close> is sure to show in full. Line 26
  formats the whole representation of the value. \<^verbatim>\<open>int\<close> keeps 200 characters of the
  representation of the string: the two quotes, and at most four characters
  (\<^verbatim>\<open>\x85\<close>) for each code point below 256, so a string of at most 49 characters is
  shown whole; for a longer one nothing is asserted. The other two messages show no value.
\<close>

fun raw_value :: "value_error \<Rightarrow> pyval option" where
  "raw_value (UnableToCoerce v) = Some v"
| "raw_value (InvalidLiteral s) = (if 4 * length s + 2 \<le> 200 then Some (PyStr s) else None)"
| "raw_value (ExceedsDigitLimit n) = None"
| "raw_value CannotConvertNaN = None"

section \<open>Notions the claims are stated with\<close>

text \<open>
  The decimal string of an integer, as \<^verbatim>\<open>str(n)\<close> and the JSON encoder write it: a
  minus sign for a negative number, then the digits, most significant first, with no
  leading zero.
\<close>

definition digit_char :: "nat \<Rightarrow> char" where
  "digit_char d = ''0123456789'' ! d"

fun str_nat :: "nat \<Rightarrow> string" where
  "str_nat n =
     (if n < 10 then [digit_char n]
      else str_nat (n div 10) @ [digit_char (n mod 10)])"

declare str_nat.simps [simp del]

definition decimal_str :: "int \<Rightarrow> string" where
  "decimal_str i = (if i < 0 then CHR ''-'' # str_nat (nat (- i)) else str_nat (nat i))"

text \<open>The value of a digit string read from the left, starting from \<open>acc\<close>.\<close>

definition digits_value :: "nat \<Rightarrow> string \<Rightarrow> nat" where
  "digits_value acc cs = foldl (\<lambda>a c. 10 * a + digit_value c) acc cs"

text \<open>The characters an integer literal is made of.\<close>

definition literal_char :: "char \<Rightarrow> bool" where
  "literal_char c \<longleftrightarrow>
     is_digit c \<or> int_space c \<or> c = CHR ''_'' \<or> c = CHR ''+'' \<or> c = CHR ''-''"

text \<open>
  The shapes the specification lists as rejected: an object, a list, a string that is empty
  (or blank), a string that \<^verbatim>\<open>int\<close> does not convert.
\<close>

fun other_shape :: "pyval \<Rightarrow> bool" where
  "other_shape (PyList xs) = True"
| "other_shape (PyDict kvs) = True"
| "other_shape (PyStr s) = (strip s = [] \<or> isl (int_of_str s))"
| "other_shape v = False"

text \<open>The values whose representation fits the 200 characters \<^verbatim>\<open>int\<close> keeps.\<close>

fun shown_whole :: "pyval \<Rightarrow> bool" where
  "shown_whole (PyStr s) = (4 * length s + 2 \<le> 200)"
| "shown_whole v = True"

section \<open>Basic facts\<close>

lemma coerce_None [simp]: "coerce_capacity PyNone d = Inr d"
  by (simp add: coerce_capacity_def)

lemma coerce_Bool [simp]: "coerce_capacity (PyBool b) d = Inr (if b then 1 else 0)"
  by (simp add: coerce_capacity_def)

lemma coerce_Int [simp]: "coerce_capacity (PyInt n) d = Inr n"
  by (simp add: coerce_capacity_def)

lemma coerce_Float [simp]: "coerce_capacity (PyFloat x) d = int_of_float x"
  by (simp add: coerce_capacity_def)

lemma coerce_Str [simp]:
  "coerce_capacity (PyStr s) d =
     (if strip s \<noteq> [] then
        (case int_of_str s of
           Inr n \<Rightarrow> Inr n
         | Inl e \<Rightarrow> Inl (ValueError e))
      else Inl (ValueError (UnableToCoerce (PyStr s))))"
  by (simp add: coerce_capacity_def)

lemma coerce_List [simp]:
  "coerce_capacity (PyList xs) d = Inl (ValueError (UnableToCoerce (PyList xs)))"
  by (simp add: coerce_capacity_def)

lemma coerce_Dict [simp]:
  "coerce_capacity (PyDict kvs) d = Inl (ValueError (UnableToCoerce (PyDict kvs)))"
  by (simp add: coerce_capacity_def)

text \<open>The default matters for an absent value only.\<close>

lemma coerce_present: "v \<noteq> PyNone \<Longrightarrow> coerce_capacity v d = coerce_capacity v d'"
  by (simp add: coerce_capacity_def)

lemma coerce_isl: "isl (coerce_capacity v d) = isl (coerce_capacity v d')"
  by (cases "v = PyNone") (simp_all add: coerce_present [of v d d'])

lemma dict_get_absent: "ev k = None \<Longrightarrow> dict_get ev k = PyNone"
  by (simp add: dict_get_def)

lemma dict_get_present: "ev k = Some v \<Longrightarrow> dict_get ev k = v"
  by (simp add: dict_get_def)

lemma dict_get_upd: "dict_get (ev(k \<mapsto> v)) k' = (if k' = k then v else dict_get ev k')"
  by (simp add: dict_get_def)

lemma normalize_request_Inr:
  assumes "normalize_request cfg ev = Inr e"
  shows "coerce_capacity (dict_get ev ''desiredCapacity'') 0 = Inr (desired_capacity e)"
    and "coerce_capacity (dict_get ev ''minCapacity'') (desired_capacity e)
           = Inr (min_capacity e)"
    and "\<exists>r. coerce_capacity (dict_get ev ''maxCapacity'') (MAX_CAPACITY cfg) = Inr r
           \<and> max_capacity e = max (desired_capacity e) r"
  using assms by (auto simp: normalize_request_def split: sum.splits)

lemma normalize_request_cong:
  assumes "\<And>d. coerce_capacity v d = coerce_capacity v' d"
  shows "normalize_request cfg (ev(k \<mapsto> v)) = normalize_request cfg (ev(k \<mapsto> v'))"
proof -
  have "coerce_capacity (dict_get (ev(k \<mapsto> v)) k') d
          = coerce_capacity (dict_get (ev(k \<mapsto> v')) k') d" for k' d
    by (simp add: dict_get_upd assms)
  then show ?thesis
    by (simp add: normalize_request_def cong: sum.case_cong)
qed

text \<open>
  What a failed coercion raises: a \<^verbatim>\<open>ValueError\<close>, or \<^verbatim>\<open>OverflowError\<close>, the latter
  exactly for an infinite float.
\<close>

lemma coerce_error_kind:
  assumes "coerce_capacity v d = Inl e"
  shows "(\<exists>ve. e = ValueError ve)
       \<or> (e = OverflowError \<and> (v = PyFloat PosInf \<or> v = PyFloat NegInf))"
proof (cases "\<exists>x. v = PyFloat x")
  case True
  then obtain x where "v = PyFloat x" ..
  with assms show ?thesis by (cases x) auto
next
  case False
  with assms show ?thesis by (cases v) (auto split: if_splits sum.splits)
qed

lemma normalize_request_isl:
  "isl (normalize_request cfg ev) \<longleftrightarrow>
     isl (coerce_capacity (dict_get ev ''desiredCapacity'') 0)
   \<or> isl (coerce_capacity (dict_get ev ''minCapacity'') 0)
   \<or> isl (coerce_capacity (dict_get ev ''maxCapacity'') 0)"
proof -
  have "isl (normalize_request cfg ev) \<longleftrightarrow>
     isl (coerce_capacity (dict_get ev ''desiredCapacity'') 0)
   \<or> isl (coerce_capacity (dict_get ev ''minCapacity'')
         (projr (coerce_capacity (dict_get ev ''desiredCapacity'') 0)))
   \<or> isl (coerce_capacity (dict_get ev ''maxCapacity'') (MAX_CAPACITY cfg))"
    by (auto simp: normalize_request_def split: sum.splits)
  then show ?thesis
    using coerce_isl [of "dict_get ev ''minCapacity''"
        "projr (coerce_capacity (dict_get ev ''desiredCapacity'') 0)" 0]
      coerce_isl [of "dict_get ev ''maxCapacity''" "MAX_CAPACITY cfg" 0]
    by blast
qed

lemma normalize_request_error_kind:
  assumes "normalize_request cfg ev = Inl e"
  shows "(\<exists>ve. e = ValueError ve)
       \<or> e = OverflowError
         \<and> (\<exists>k\<in>{''desiredCapacity'', ''minCapacity'', ''maxCapacity''}.
               dict_get ev k = PyFloat PosInf \<or> dict_get ev k = PyFloat NegInf)"
proof -
  from assms obtain k d
    where k: "k \<in> {''desiredCapacity'', ''minCapacity'', ''maxCapacity''}"
      and c: "coerce_capacity (dict_get ev k) d = Inl e"
    by (auto simp: normalize_request_def split: sum.splits)
  from coerce_error_kind [OF c] k show ?thesis by blast
qed

text \<open>\<open>int_trunc\<close> is truncation toward zero: within 1 of the number, and no larger in size.\<close>

lemma int_trunc_bounds:
  "\<bar>of_int (int_trunc q) - q\<bar> < 1 \<and> \<bar>of_int (int_trunc q)\<bar> \<le> \<bar>q\<bar>"
proof (cases "0 \<le> q")
  case True
  have "of_int \<lfloor>q\<rfloor> \<le> q" "q < of_int \<lfloor>q\<rfloor> + 1"
    using floor_correct [of q] by simp_all
  moreover from True have "(0::rat) \<le> of_int \<lfloor>q\<rfloor>" by simp
  moreover from True have "int_trunc q = \<lfloor>q\<rfloor>" by (simp add: int_trunc_def)
  ultimately show ?thesis using True by linarith
next
  case False
  have "of_int \<lceil>q\<rceil> - 1 < q" "q \<le> of_int \<lceil>q\<rceil>"
    using ceiling_correct [of q] by simp_all
  moreover from False have "of_int \<lceil>q\<rceil> \<le> (0::rat)" by simp
  moreover from False have "int_trunc q = \<lceil>q\<rceil>" by (simp add: int_trunc_def)
  ultimately show ?thesis using False by linarith
qed

section \<open>Integer literals\<close>

lemma digit_char_cases:
  assumes "d < (10::nat)"
  shows "d \<in> {0, 1, 2, 3, 4, 5, 6, 7, 8, 9}"
  using assms by auto

lemma is_digit_digit_char: "d < 10 \<Longrightarrow> is_digit (digit_char d)"
  using digit_char_cases [of d] by (auto simp: is_digit_def digit_char_def)

lemma digit_value_digit_char: "d < 10 \<Longrightarrow> digit_value (digit_char d) = d"
  using digit_char_cases [of d] by (auto simp: digit_value_def digit_char_def)

lemma digit_not_space: "is_digit c \<Longrightarrow> \<not> int_space c \<and> \<not> isspace c"
  by (auto simp: is_digit_def int_space_def isspace_def)

lemma digit_not_sign: "is_digit c \<Longrightarrow> c \<noteq> CHR ''-'' \<and> c \<noteq> CHR ''+'' \<and> c \<noteq> CHR ''_''"
  by (auto simp: is_digit_def)

lemma str_nat_digits: "\<forall>c\<in>set (str_nat n). is_digit c"
proof (induction n rule: str_nat.induct)
  case (1 n)
  show ?case
  proof (cases "n < 10")
    case True
    then show ?thesis by (simp add: str_nat.simps [of n] is_digit_digit_char)
  next
    case False
    with 1 show ?thesis by (simp add: str_nat.simps [of n] is_digit_digit_char)
  qed
qed

lemma str_nat_not_Nil: "str_nat n \<noteq> []"
  by (simp add: str_nat.simps [of n])

lemma digits_value_str_nat: "digits_value 0 (str_nat n) = n"
proof (induction n rule: str_nat.induct)
  case (1 n)
  show ?case
  proof (cases "n < 10")
    case True
    then show ?thesis
      by (simp add: str_nat.simps [of n] digits_value_def digit_value_digit_char)
  next
    case False
    with 1 show ?thesis
      by (simp add: str_nat.simps [of n] digits_value_def digit_value_digit_char)
  qed
qed

lemma parse_digits_all:
  "\<forall>c\<in>set cs. is_digit c \<Longrightarrow>
     parse_digits acc cnt cs = Some (digits_value acc cs, cnt + length cs, [])"
  by (induction cs arbitrary: acc cnt) (simp_all add: digits_value_def)

text \<open>A string of digits is converted when it is within the limit, and rejected beyond.\<close>

lemma int_of_str_digits:
  assumes "cs \<noteq> []" and "\<forall>c\<in>set cs. is_digit c"
    and "length cs \<le> int_max_str_digits"
  shows "int_of_str cs = Inr (int (digits_value 0 cs))"
    and "int_of_str (CHR ''-'' # cs) = Inr (- int (digits_value 0 cs))"
proof -
  from assms obtain d ds where cs: "cs = d # ds" and d: "is_digit d"
    and ds: "\<forall>c\<in>set ds. is_digit c"
    by (cases cs) auto
  have v: "digits_value (digit_value d) ds = digits_value 0 cs"
    by (simp add: cs digits_value_def)
  have l: "\<not> int_max_str_digits < Suc (length ds)"
    using assms(3) by (simp add: cs)
  show "int_of_str cs = Inr (int (digits_value 0 cs))"
    using d digit_not_space [OF d] digit_not_sign [OF d] parse_digits_all [OF ds] v l
    by (simp add: int_of_str_def parse_sign_def cs)
  have "\<not> int_space CHR ''-''" by (simp add: int_space_def)
  then show "int_of_str (CHR ''-'' # cs) = Inr (- int (digits_value 0 cs))"
    using d parse_digits_all [OF ds] v l
    by (simp add: int_of_str_def parse_sign_def cs)
qed

lemma int_of_str_digits_long:
  assumes "\<forall>c\<in>set cs. is_digit c" and "int_max_str_digits < length cs"
  shows "int_of_str cs = Inl (ExceedsDigitLimit (length cs))"
    and "int_of_str (CHR ''-'' # cs) = Inl (ExceedsDigitLimit (length cs))"
proof -
  from assms obtain d ds where cs: "cs = d # ds" and d: "is_digit d"
    and ds: "\<forall>c\<in>set ds. is_digit c"
    by (cases cs) auto
  have l: "int_max_str_digits < Suc (length ds)"
    using assms(2) by (simp add: cs)
  show "int_of_str cs = Inl (ExceedsDigitLimit (length cs))"
    using d digit_not_space [OF d] digit_not_sign [OF d] parse_digits_all [OF ds] l
    by (simp add: int_of_str_def parse_sign_def cs)
  have "\<not> int_space CHR ''-''" by (simp add: int_space_def)
  then show "int_of_str (CHR ''-'' # cs) = Inl (ExceedsDigitLimit (length cs))"
    using d parse_digits_all [OF ds] l
    by (simp add: int_of_str_def parse_sign_def cs)
qed

text \<open>The number of digits of a decimal string.\<close>

lemma length_str_nat_le: "n < 10 ^ k \<Longrightarrow> 0 < k \<Longrightarrow> length (str_nat n) \<le> k"
proof (induction n arbitrary: k rule: str_nat.induct)
  case (1 n)
  show ?case
  proof (cases "n < 10")
    case True
    with 1(3) show ?thesis by (simp add: str_nat.simps [of n])
  next
    case False
    from 1(3) obtain j where k: "k = Suc j" by (cases k) auto
    with 1(2) have lt: "n div 10 < 10 ^ j"
      by (simp add: less_mult_imp_div_less mult.commute)
    from False lt have "0 < j" by (cases j) auto
    from 1(1) [OF False lt this] have "length (str_nat (n div 10)) \<le> j" .
    with False k show ?thesis by (simp add: str_nat.simps [of n])
  qed
qed

lemma length_str_nat_power: "length (str_nat (10 ^ k)) = Suc k"
proof (induction k)
  case 0
  show ?case by (simp add: str_nat.simps [of "Suc 0"])
next
  case (Suc k)
  have "\<not> (10::nat) ^ Suc k < 10" by simp
  then have "str_nat (10 ^ Suc k) =
      str_nat (10 ^ Suc k div 10) @ [digit_char (10 ^ Suc k mod 10)]"
    by (subst str_nat.simps) (simp only: if_False)
  with Suc show ?case by simp
qed

lemma decimal_str_power: "decimal_str (10 ^ k) = str_nat (10 ^ k)"
  by (simp add: decimal_str_def nat_power_eq)

lemma int_of_str_decimal_str:
  assumes "\<bar>i\<bar> < 10 ^ int_max_str_digits"
  shows "int_of_str (decimal_str i) = Inr i"
proof -
  have "nat \<bar>i\<bar> < 10 ^ int_max_str_digits"
    using assms by (simp add: nat_less_iff)
  moreover have "0 < int_max_str_digits" by (simp add: int_max_str_digits_def)
  ultimately have "length (str_nat (nat \<bar>i\<bar>)) \<le> int_max_str_digits"
    by (rule length_str_nat_le)
  from int_of_str_digits [OF str_nat_not_Nil str_nat_digits this]
  show ?thesis
    by (simp add: decimal_str_def digits_value_str_nat abs_if split: if_splits)
qed

lemma int_of_str_decimal_str_power:
  assumes "int_max_str_digits \<le> k"
  shows "int_of_str (decimal_str (10 ^ k)) = Inl (ExceedsDigitLimit (Suc k))"
proof -
  have "int_max_str_digits < length (str_nat (10 ^ k))"
    using assms by (simp add: length_str_nat_power)
  from int_of_str_digits_long(1) [OF str_nat_digits this]
  show ?thesis by (simp add: decimal_str_power length_str_nat_power)
qed

lemma strip_Nil_iff: "strip s = [] \<longleftrightarrow> (\<forall>c\<in>set s. isspace c)"
proof
  assume "strip s = []"
  then have "\<forall>c\<in>set (dropWhile isspace s). isspace c"
    by (simp add: strip_def)
  then have "dropWhile isspace s = []"
    using hd_dropWhile [of isspace s] by (cases "dropWhile isspace s") auto
  then show "\<forall>c\<in>set s. isspace c"
    by simp
next
  assume "\<forall>c\<in>set s. isspace c"
  then show "strip s = []" by (auto simp: strip_def dest: set_dropWhileD)
qed

lemma strip_decimal_str: "strip (decimal_str i) \<noteq> []"
proof -
  obtain c where "c \<in> set (str_nat (nat \<bar>i\<bar>))" "is_digit c"
    using str_nat_not_Nil [of "nat \<bar>i\<bar>"] str_nat_digits [of "nat \<bar>i\<bar>"]
    by (cases "str_nat (nat \<bar>i\<bar>)") auto
  then have "c \<in> set (decimal_str i)" "\<not> isspace c"
    by (auto simp: decimal_str_def digit_not_space abs_if split: if_splits)
  then show ?thesis by (auto simp: strip_Nil_iff)
qed

text \<open>What a conversion read is made of literal characters, and is no longer than the string.\<close>

lemma parse_digits_consumed:
  "parse_digits acc cnt cs = Some (n, cnt', rest) \<Longrightarrow>
     (\<exists>pre. cs = pre @ rest \<and> (\<forall>c\<in>set pre. literal_char c)) \<and> cnt' \<le> cnt + length cs"
proof (induction acc cnt cs rule: parse_digits.induct)
  case (1 acc cnt)
  then show ?case by simp
next
  case (2 acc cnt c cs)
  show ?case
  proof (cases "is_digit c")
    case True
    with 2 obtain pre where "cs = pre @ rest" "\<forall>x\<in>set pre. literal_char x"
      and "cnt' \<le> Suc cnt + length cs"
      by auto
    with True have "c # cs = (c # pre) @ rest \<and> (\<forall>x\<in>set (c # pre). literal_char x)"
      and "cnt' \<le> cnt + length (c # cs)"
      by (simp_all add: literal_char_def)
    then show ?thesis by blast
  next
    case nd: False
    show ?thesis
    proof (cases "c = CHR ''_''")
      case True
      with nd 2(3) obtain d ds where cs: "cs = d # ds" and d: "is_digit d"
        and p: "parse_digits (10 * acc + digit_value d) (Suc cnt) ds = Some (n, cnt', rest)"
        by (auto split: list.splits if_splits)
      from 2(2) [OF nd True cs d p] obtain pre
        where "ds = pre @ rest" "\<forall>x\<in>set pre. literal_char x"
          and "cnt' \<le> Suc cnt + length ds"
        by auto
      with True d cs
      have "c # cs = (c # d # pre) @ rest \<and> (\<forall>x\<in>set (c # d # pre). literal_char x)"
        and "cnt' \<le> cnt + length (c # cs)"
        by (simp_all add: literal_char_def)
      then show ?thesis by blast
    next
      case False
      with nd 2(3) have "c # cs = [] @ rest" and "cnt' \<le> cnt + length (c # cs)"
        by simp_all
      then show ?thesis by (metis empty_iff list.set(1))
    qed
  qed
qed

lemma int_of_str_literal_chars:
  assumes "int_of_str s = Inr i"
  shows "\<forall>c\<in>set s. literal_char c"
proof -
  define s1 where "s1 = dropWhile int_space s"
  have s: "s = takeWhile int_space s @ s1" by (simp add: s1_def)
  have lead: "\<forall>c\<in>set (takeWhile int_space s). literal_char c"
    by (auto simp: literal_char_def dest: set_takeWhileD)
  obtain neg s2 where ps: "parse_sign s1 = (neg, s2)" by (cases "parse_sign s1")
  have sign: "\<exists>pre. s1 = pre @ s2 \<and> (\<forall>c\<in>set pre. literal_char c)"
  proof (cases s1)
    case Nil
    with ps show ?thesis by (simp add: parse_sign_def)
  next
    case (Cons c cs)
    show ?thesis
    proof (cases "c = CHR ''-'' \<or> c = CHR ''+''")
      case True
      with ps Cons have "s1 = [c] @ s2 \<and> (\<forall>x\<in>set [c]. literal_char x)"
        by (auto simp: parse_sign_def literal_char_def split: if_splits)
      then show ?thesis by blast
    next
      case False
      with ps Cons have "s1 = [] @ s2" by (auto simp: parse_sign_def)
      then show ?thesis by (metis empty_iff list.set(1))
    qed
  qed
  from assms ps obtain d ds n cnt rest where s2: "s2 = d # ds" and d: "is_digit d"
    and p: "parse_digits (digit_value d) 1 ds = Some (n, cnt, rest)"
    and r: "dropWhile int_space rest = []"
    by (auto simp: int_of_str_def s1_def [symmetric]
        split: list.splits if_splits option.splits)
  from parse_digits_consumed [OF p] obtain pre
    where ds: "ds = pre @ rest" and pre: "\<forall>c\<in>set pre. literal_char c" by auto
  from r have rest: "\<forall>c\<in>set rest. literal_char c"
    by (simp add: literal_char_def)
  have "\<forall>c\<in>set s2. literal_char c"
    using s2 d ds pre rest by (auto simp: literal_char_def)
  with sign have "\<forall>c\<in>set s1. literal_char c" by auto
  with lead s show ?thesis by (metis Un_iff set_append)
qed

text \<open>
  A rejected string is reported as an invalid literal, unless it has too many digits: then
  it is longer than the limit.
\<close>

lemma int_of_str_error:
  assumes "int_of_str s = Inl e"
  shows "e = InvalidLiteral s
       \<or> (\<exists>n. e = ExceedsDigitLimit n \<and> int_max_str_digits < n \<and> n \<le> length s)"
proof (cases "e = InvalidLiteral s")
  case True
  then show ?thesis by simp
next
  case False
  define s1 where "s1 = dropWhile int_space s"
  obtain neg s2 where ps: "parse_sign s1 = (neg, s2)" by (cases "parse_sign s1")
  from assms False ps obtain d ds n cnt rest where s2: "s2 = d # ds"
    and p: "parse_digits (digit_value d) 1 ds = Some (n, cnt, rest)"
    and lim: "int_max_str_digits < cnt" and e: "e = ExceedsDigitLimit cnt"
    by (auto simp: int_of_str_def s1_def [symmetric]
        split: list.splits if_splits option.splits)
  from parse_digits_consumed [OF p] s2 have "cnt \<le> length s2" by simp
  also have "length s2 \<le> length s1"
    using ps by (auto simp: parse_sign_def split: list.splits if_splits)
  also have "length s1 \<le> length s"
    by (simp add: s1_def length_dropWhile_le)
  finally show ?thesis using lim e by simp
qed

lemma int_of_str_rejects:
  assumes "c \<in> set s" and "\<not> literal_char c"
  shows "isl (int_of_str s)"
  using assms int_of_str_literal_chars [of s] by (cases "int_of_str s") auto

lemma not_space_strip: "c \<in> set s \<Longrightarrow> \<not> isspace c \<Longrightarrow> strip s \<noteq> []"
  by (auto simp: strip_Nil_iff)

lemma coerce_decimal_str_power:
  assumes "int_max_str_digits \<le> k"
  shows "coerce_capacity (PyStr (decimal_str (10 ^ k))) d
           = Inl (ValueError (ExceedsDigitLimit (Suc k)))"
  by (simp add: strip_decimal_str int_of_str_decimal_str_power [OF assms])

section \<open>The capacity envelope\<close>

text \<open>
  Claim C1, as amended. For every raw request that normalization accepts, the envelope
  satisfies desired \<open>\<le>\<close> maximum. The minimum is the coerced \<^verbatim>\<open>minCapacity\<close>, taken
  as it is and never clamped: it is at most the desired value when \<^verbatim>\<open>minCapacity\<close> is
  absent (it then equals the desired value).
\<close>

theorem envelope_order:
  assumes "normalize_request cfg ev = Inr e"
  shows "desired_capacity e \<le> max_capacity e
       \<and> coerce_capacity (dict_get ev ''minCapacity'') (desired_capacity e)
           = Inr (min_capacity e)
       \<and> (ev ''minCapacity'' = None \<longrightarrow> min_capacity e \<le> desired_capacity e)"
proof -
  from normalize_request_Inr(3) [OF assms] have "desired_capacity e \<le> max_capacity e"
    by auto
  moreover have "min_capacity e = desired_capacity e" if "ev ''minCapacity'' = None"
    using normalize_request_Inr(2) [OF assms] that by (simp add: dict_get_absent)
  ultimately show ?thesis
    using normalize_request_Inr(2) [OF assms] by simp
qed

theorem envelope_order_witness:
  "normalize_request example_config [''desiredCapacity'' \<mapsto> PyInt 6]
     = Inr \<lparr>desired_capacity = 6, min_capacity = 6, max_capacity = 6\<rparr>
   \<and> desired_capacity \<lparr>desired_capacity = 6, min_capacity = 6, max_capacity = 6\<rparr>
       \<le> max_capacity \<lparr>desired_capacity = 6, min_capacity = 6, max_capacity = 6\<rparr>
   \<and> min_capacity \<lparr>desired_capacity = 6, min_capacity = 6, max_capacity = 6\<rparr>
       \<le> desired_capacity \<lparr>desired_capacity = 6, min_capacity = 6, max_capacity = 6\<rparr>"
proof -
  have h: "normalize_request example_config [''desiredCapacity'' \<mapsto> PyInt 6]
             = Inr \<lparr>desired_capacity = 6, min_capacity = 6, max_capacity = 6\<rparr>"
    by (simp add: normalize_request_def dict_get_def example_config_def)
  show ?thesis using h envelope_order [OF h] by simp
qed

text \<open>
  The claim as stated fails: with ceiling 4, the request
  \<^verbatim>\<open>{"desiredCapacity": 3, "minCapacity": 5}\<close> is accepted with minimum 5 above desired 3
  (and above maximum 4).
\<close>

theorem envelope_order_counterexample:
  "normalize_request example_config [''desiredCapacity'' \<mapsto> PyInt 3, ''minCapacity'' \<mapsto> PyInt 5]
     = Inr \<lparr>desired_capacity = 3, min_capacity = 5, max_capacity = 4\<rparr>
   \<and> \<not> min_capacity \<lparr>desired_capacity = 3, min_capacity = 5, max_capacity = 4\<rparr>
        \<le> desired_capacity \<lparr>desired_capacity = 3, min_capacity = 5, max_capacity = 4\<rparr>"
  by (simp add: normalize_request_def dict_get_def example_config_def)

text \<open>
  Claim C2. For every accepted raw request, the final maximum is the larger of the
  resolved \<^verbatim>\<open>desiredCapacity\<close> and the resolved \<^verbatim>\<open>maxCapacity\<close>. When
  \<^verbatim>\<open>maxCapacity\<close> is absent, the maximum is the configured ceiling, unless the resolved
  desired value exceeds the ceiling: then it is the desired value.
\<close>

theorem maximum_is_larger:
  assumes "normalize_request cfg ev = Inr e"
  shows "(\<exists>d m. coerce_capacity (dict_get ev ''desiredCapacity'') 0 = Inr d
            \<and> coerce_capacity (dict_get ev ''maxCapacity'') (MAX_CAPACITY cfg) = Inr m
            \<and> desired_capacity e = d \<and> max_capacity e = max d m)
       \<and> (ev ''maxCapacity'' = None \<longrightarrow>
            max_capacity e =
              (if desired_capacity e > MAX_CAPACITY cfg then desired_capacity e
               else MAX_CAPACITY cfg))"
proof -
  from normalize_request_Inr(3) [OF assms] obtain m
    where m: "coerce_capacity (dict_get ev ''maxCapacity'') (MAX_CAPACITY cfg) = Inr m"
      and mx: "max_capacity e = max (desired_capacity e) m"
    by auto
  have "m = MAX_CAPACITY cfg" if "ev ''maxCapacity'' = None"
    using m that by (simp add: dict_get_absent)
  with mx have "ev ''maxCapacity'' = None \<longrightarrow>
      max_capacity e =
        (if desired_capacity e > MAX_CAPACITY cfg then desired_capacity e
         else MAX_CAPACITY cfg)"
    by auto
  with m mx normalize_request_Inr(1) [OF assms] show ?thesis by blast
qed

theorem maximum_is_larger_witness:
  "normalize_request example_config [''desiredCapacity'' \<mapsto> PyInt 6]
     = Inr \<lparr>desired_capacity = 6, min_capacity = 6, max_capacity = 6\<rparr>
   \<and> normalize_request example_config [''desiredCapacity'' \<mapsto> PyInt 3]
     = Inr \<lparr>desired_capacity = 3, min_capacity = 3, max_capacity = 4\<rparr>
   \<and> max_capacity \<lparr>desired_capacity = 6, min_capacity = 6, max_capacity = 6\<rparr> = 6
   \<and> max_capacity \<lparr>desired_capacity = 3, min_capacity = 3, max_capacity = 4\<rparr>
       = MAX_CAPACITY example_config"
proof -
  have h6: "normalize_request example_config [''desiredCapacity'' \<mapsto> PyInt 6]
              = Inr \<lparr>desired_capacity = 6, min_capacity = 6, max_capacity = 6\<rparr>"
    by (simp add: normalize_request_def dict_get_def example_config_def)
  have h3: "normalize_request example_config [''desiredCapacity'' \<mapsto> PyInt 3]
              = Inr \<lparr>desired_capacity = 3, min_capacity = 3, max_capacity = 4\<rparr>"
    by (simp add: normalize_request_def dict_get_def example_config_def)
  show ?thesis
    using h6 h3 maximum_is_larger [OF h6] maximum_is_larger [OF h3]
    by (simp add: example_config_def)
qed

text \<open>
  Claim C3. In every accepted raw request without \<^verbatim>\<open>minCapacity\<close> the minimum is the
  resolved desired value, not 0; an explicit \<^verbatim>\<open>minCapacity\<close> of 0 gives minimum 0. In
  every request without \<^verbatim>\<open>desiredCapacity\<close> the desired value resolves to 0.
\<close>

theorem defaults:
  "(ev ''desiredCapacity'' = None \<longrightarrow>
      coerce_capacity (dict_get ev ''desiredCapacity'') 0 = Inr 0)
   \<and> (normalize_request cfg ev = Inr e \<longrightarrow>
        (ev ''desiredCapacity'' = None \<longrightarrow> desired_capacity e = 0)
      \<and> (ev ''minCapacity'' = None \<longrightarrow> min_capacity e = desired_capacity e)
      \<and> (ev ''minCapacity'' = Some (PyInt 0) \<longrightarrow> min_capacity e = 0))"
proof -
  have a: "coerce_capacity (dict_get ev ''desiredCapacity'') 0 = Inr 0"
    if "ev ''desiredCapacity'' = None"
    using that by (simp add: dict_get_absent)
  have b: "desired_capacity e = 0"
    if "normalize_request cfg ev = Inr e" "ev ''desiredCapacity'' = None"
    using normalize_request_Inr(1) [OF that(1)] a [OF that(2)] by simp
  have c: "min_capacity e = desired_capacity e"
    if "normalize_request cfg ev = Inr e" "ev ''minCapacity'' = None"
    using normalize_request_Inr(2) [OF that(1)] that(2) by (simp add: dict_get_absent)
  have d: "min_capacity e = 0"
    if "normalize_request cfg ev = Inr e" "ev ''minCapacity'' = Some (PyInt 0)"
    using normalize_request_Inr(2) [OF that(1)] that(2) by (simp add: dict_get_present)
  from a b c d show ?thesis by blast
qed

theorem defaults_witness:
  "normalize_request example_config [''desiredCapacity'' \<mapsto> PyInt 3]
     = Inr \<lparr>desired_capacity = 3, min_capacity = 3, max_capacity = 4\<rparr>
   \<and> normalize_request example_config [''desiredCapacity'' \<mapsto> PyInt 3, ''minCapacity'' \<mapsto> PyInt 0]
     = Inr \<lparr>desired_capacity = 3, min_capacity = 0, max_capacity = 4\<rparr>
   \<and> normalize_request example_config Map.empty
     = Inr \<lparr>desired_capacity = 0, min_capacity = 0, max_capacity = 4\<rparr>
   \<and> coerce_capacity (dict_get Map.empty ''desiredCapacity'') 0 = Inr 0"
proof -
  let ?e1 = "\<lparr>desired_capacity = 3, min_capacity = 3, max_capacity = 4\<rparr>"
  let ?e2 = "\<lparr>desired_capacity = 3, min_capacity = 0, max_capacity = 4\<rparr>"
  let ?e3 = "\<lparr>desired_capacity = 0, min_capacity = 0, max_capacity = 4\<rparr>"
  have h1: "normalize_request example_config [''desiredCapacity'' \<mapsto> PyInt 3] = Inr ?e1"
    by (simp add: normalize_request_def dict_get_def example_config_def)
  have h2: "normalize_request example_config
              [''desiredCapacity'' \<mapsto> PyInt 3, ''minCapacity'' \<mapsto> PyInt 0] = Inr ?e2"
    by (simp add: normalize_request_def dict_get_def example_config_def)
  have h3: "normalize_request example_config Map.empty = Inr ?e3"
    by (simp add: normalize_request_def dict_get_def example_config_def)
  show ?thesis
    using h1 h2 h3
      defaults [of "[''desiredCapacity'' \<mapsto> PyInt 3]" example_config ?e1]
      defaults [of "[''desiredCapacity'' \<mapsto> PyInt 3, ''minCapacity'' \<mapsto> PyInt 0]"
                   example_config ?e2]
      defaults [of Map.empty example_config ?e3]
    by simp
qed

text \<open>
  Claim C6, as amended. The handler rejects no negative number. For every accepted raw
  request in which \<^verbatim>\<open>desiredCapacity\<close> and \<^verbatim>\<open>minCapacity\<close>, where they coerce, coerce
  to non-negative integers, each field of the envelope is non-negative.
\<close>

theorem envelope_nonneg:
  assumes "normalize_request cfg ev = Inr e"
    and "\<forall>n. coerce_capacity (dict_get ev ''desiredCapacity'') 0 = Inr n \<longrightarrow> 0 \<le> n"
    and "\<forall>n. coerce_capacity (dict_get ev ''minCapacity'') 0 = Inr n \<longrightarrow> 0 \<le> n"
  shows "0 \<le> min_capacity e \<and> 0 \<le> desired_capacity e \<and> 0 \<le> max_capacity e"
proof -
  have d: "0 \<le> desired_capacity e"
    using normalize_request_Inr(1) [OF assms(1)] assms(2) by simp
  have m: "0 \<le> min_capacity e"
  proof (cases "dict_get ev ''minCapacity'' = PyNone")
    case True
    with normalize_request_Inr(2) [OF assms(1)] d show ?thesis by simp
  next
    case False
    from normalize_request_Inr(2) [OF assms(1)] coerce_present [OF False, of 0 "desired_capacity e"]
    have "coerce_capacity (dict_get ev ''minCapacity'') 0 = Inr (min_capacity e)" by simp
    with assms(3) show ?thesis by simp
  qed
  from normalize_request_Inr(3) [OF assms(1)] d have "0 \<le> max_capacity e" by auto
  with d m show ?thesis by simp
qed

theorem envelope_nonneg_witness:
  "normalize_request example_config [''desiredCapacity'' \<mapsto> PyInt 3, ''minCapacity'' \<mapsto> PyInt 2]
     = Inr \<lparr>desired_capacity = 3, min_capacity = 2, max_capacity = 4\<rparr>
   \<and> 0 \<le> min_capacity \<lparr>desired_capacity = 3, min_capacity = 2, max_capacity = 4\<rparr>
   \<and> 0 \<le> desired_capacity \<lparr>desired_capacity = 3, min_capacity = 2, max_capacity = 4\<rparr>
   \<and> 0 \<le> max_capacity \<lparr>desired_capacity = 3, min_capacity = 2, max_capacity = 4\<rparr>"
proof -
  let ?ev = "[''desiredCapacity'' \<mapsto> PyInt 3, ''minCapacity'' \<mapsto> PyInt 2]"
  have h: "normalize_request example_config ?ev
             = Inr \<lparr>desired_capacity = 3, min_capacity = 2, max_capacity = 4\<rparr>"
    by (simp add: normalize_request_def dict_get_def example_config_def)
  have d: "\<forall>n. coerce_capacity (dict_get ?ev ''desiredCapacity'') 0 = Inr n \<longrightarrow> 0 \<le> n"
    by (simp add: dict_get_def)
  have m: "\<forall>n. coerce_capacity (dict_get ?ev ''minCapacity'') 0 = Inr n \<longrightarrow> 0 \<le> n"
    by (simp add: dict_get_def)
  show ?thesis using h envelope_nonneg [OF h d m] by simp
qed

text \<open>
  The claim as stated fails: \<^verbatim>\<open>{"desiredCapacity": -1}\<close> is accepted, with desired and
  minimum \<open>-1\<close>.
\<close>

theorem envelope_nonneg_counterexample:
  "normalize_request example_config [''desiredCapacity'' \<mapsto> PyInt (- 1)]
     = Inr \<lparr>desired_capacity = - 1, min_capacity = - 1, max_capacity = 4\<rparr>
   \<and> \<not> 0 \<le> desired_capacity \<lparr>desired_capacity = - 1, min_capacity = - 1, max_capacity = 4\<rparr>"
  by (simp add: normalize_request_def dict_get_def example_config_def)

section \<open>Coercion of a field\<close>

text \<open>
  Claim C9. A boolean is not rejected: \<^verbatim>\<open>true\<close> coerces to 1 and \<^verbatim>\<open>false\<close> to 0, in
  whichever field it is supplied, so the request normalizes as with the integer.
\<close>

theorem booleans_accepted:
  "coerce_capacity (PyBool True) d = Inr 1
   \<and> coerce_capacity (PyBool False) d = Inr 0
   \<and> normalize_request cfg (ev(k \<mapsto> PyBool True)) = normalize_request cfg (ev(k \<mapsto> PyInt 1))
   \<and> normalize_request cfg (ev(k \<mapsto> PyBool False)) = normalize_request cfg (ev(k \<mapsto> PyInt 0))"
  using normalize_request_cong [of "PyBool True" "PyInt 1" cfg ev k]
    normalize_request_cong [of "PyBool False" "PyInt 0" cfg ev k]
  by simp









section \<open>The invocation\<close>

text \<open>
  When a field of the raw request fails coercion, the invocation fails with what the
  coercion raised and the list of external calls is unchanged. In every invocation a call
  is issued only when all three fields have been coerced, and at most one call is issued.
  What is raised is a \<^verbatim>\<open>ValueError\<close>, except when a field is an infinite float.
\<close>

lemma coercion_failure_no_call:
  "(isl (coerce_capacity (dict_get ev ''desiredCapacity'') 0)
      \<or> isl (coerce_capacity (dict_get ev ''minCapacity'') 0)
      \<or> isl (coerce_capacity (dict_get ev ''maxCapacity'') 0)
     \<longrightarrow> (\<exists>e. on_event cfg api ev calls = (Inl e, calls)
            \<and> ((\<exists>ve. e = ValueError ve)
               \<or> e = OverflowError
                 \<and> (\<exists>k\<in>{''desiredCapacity'', ''minCapacity'', ''maxCapacity''}.
                       dict_get ev k = PyFloat PosInf \<or> dict_get ev k = PyFloat NegInf))))
   \<and> (snd (on_event cfg api ev calls) \<noteq> calls
     \<longrightarrow> \<not> isl (coerce_capacity (dict_get ev ''desiredCapacity'') 0)
       \<and> \<not> isl (coerce_capacity (dict_get ev ''minCapacity'') 0)
       \<and> \<not> isl (coerce_capacity (dict_get ev ''maxCapacity'') 0))
   \<and> (\<exists>cs. snd (on_event cfg api ev calls) = calls @ cs \<and> length cs \<le> 1)"
proof (cases "normalize_request cfg ev")
  case (Inl e)
  then have "on_event cfg api ev calls = (Inl e, calls)"
    by (simp add: on_event_def)
  moreover from Inl have "(\<exists>ve. e = ValueError ve)
      \<or> e = OverflowError
        \<and> (\<exists>k\<in>{''desiredCapacity'', ''minCapacity'', ''maxCapacity''}.
              dict_get ev k = PyFloat PosInf \<or> dict_get ev k = PyFloat NegInf)"
    by (rule normalize_request_error_kind)
  ultimately show ?thesis by simp
next
  case (Inr env)
  then have ok: "\<not> isl (normalize_request cfg ev)" by simp
  from Inr have "\<exists>call. snd (on_event cfg api ev calls) = calls @ [call]"
    by (simp add: on_event_def Let_def split: option.splits)
  then have "\<exists>cs. snd (on_event cfg api ev calls) = calls @ cs \<and> length cs \<le> 1"
    by (metis length_Cons list.size(3) One_nat_def order_refl)
  with ok show ?thesis
    unfolding normalize_request_isl by blast
qed

text \<open>
  Claim C5. The claim holds but for the kind of the failure: the request
  \<^verbatim>\<open>{"desiredCapacity": 1e999}\<close>, whose field decodes to the float infinity, fails
  coercion and issues no call, as claimed, but ends with \<^verbatim>\<open>OverflowError\<close>, which is no
  \<^verbatim>\<open>ValueError\<close>: \<^verbatim>\<open>int(value)\<close> at line 23 raises it, where NaN and every other value
  that cannot be coerced end with \<^verbatim>\<open>ValueError\<close>.
\<close>

theorem infinite_float_overflow:
  "on_event example_config api [''desiredCapacity'' \<mapsto> PyFloat PosInf] calls
     = (Inl OverflowError, calls)
   \<and> on_event example_config api [''desiredCapacity'' \<mapsto> PyFloat NaN] calls
     = (Inl (ValueError CannotConvertNaN), calls)"
  by (simp add: on_event_def normalize_request_def dict_get_def)

text \<open>
  Claim C7. The result of a successful invocation has the keys \<^verbatim>\<open>cluster\<close>,
  \<^verbatim>\<open>nodegroup\<close>, \<^verbatim>\<open>desired\<close>, \<^verbatim>\<open>min\<close> and \<^verbatim>\<open>max\<close>: the configured names, and
  the very numbers of the \<^verbatim>\<open>scalingConfig\<close> of the call that was issued.
\<close>

theorem result_echoes_call:
  assumes "on_event cfg api ev calls = (Inr r, calls')"
  shows "\<exists>call. calls' = calls @ [call] \<and> api call = None
           \<and> clusterName call = CLUSTER_NAME cfg
           \<and> nodegroupName call = NODEGROUP_NAME cfg
           \<and> r = [''cluster'' \<mapsto> PyStr (CLUSTER_NAME cfg),
                  ''nodegroup'' \<mapsto> PyStr (NODEGROUP_NAME cfg),
                  ''desired'' \<mapsto> PyInt (desiredSize (scalingConfig call)),
                  ''min'' \<mapsto> PyInt (minSize (scalingConfig call)),
                  ''max'' \<mapsto> PyInt (maxSize (scalingConfig call))]"
  using assms
  by (auto simp: on_event_def Let_def split: sum.splits option.splits)

theorem result_echoes_call_witness:
  "on_event example_config (\<lambda>c. None)
       [''desiredCapacity'' \<mapsto> PyInt 3, ''minCapacity'' \<mapsto> PyInt 2] []
     = (Inr [''cluster'' \<mapsto> PyStr ''AstronomerEksCluster'',
             ''nodegroup'' \<mapsto> PyStr ''AstronomerWorkers'',
             ''desired'' \<mapsto> PyInt 3, ''min'' \<mapsto> PyInt 2, ''max'' \<mapsto> PyInt 4],
        [\<lparr>clusterName = ''AstronomerEksCluster'', nodegroupName = ''AstronomerWorkers'',
          scalingConfig = \<lparr>minSize = 2, maxSize = 4, desiredSize = 3\<rparr>\<rparr>])
   \<and> (\<exists>call. [\<lparr>clusterName = ''AstronomerEksCluster'', nodegroupName = ''AstronomerWorkers'',
          scalingConfig = \<lparr>minSize = 2, maxSize = 4, desiredSize = 3\<rparr>\<rparr>] = [] @ [call]
        \<and> clusterName call = CLUSTER_NAME example_config
        \<and> desiredSize (scalingConfig call) = 3)"
proof -
  have h: "on_event example_config (\<lambda>c. None)
       [''desiredCapacity'' \<mapsto> PyInt 3, ''minCapacity'' \<mapsto> PyInt 2] []
     = (Inr [''cluster'' \<mapsto> PyStr ''AstronomerEksCluster'',
             ''nodegroup'' \<mapsto> PyStr ''AstronomerWorkers'',
             ''desired'' \<mapsto> PyInt 3, ''min'' \<mapsto> PyInt 2, ''max'' \<mapsto> PyInt 4],
        [\<lparr>clusterName = ''AstronomerEksCluster'', nodegroupName = ''AstronomerWorkers'',
          scalingConfig = \<lparr>minSize = 2, maxSize = 4, desiredSize = 3\<rparr>\<rparr>])"
    by (simp add: on_event_def normalize_request_def dict_get_def example_config_def)
  show ?thesis using h result_echoes_call [OF h] by (simp add: example_config_def)
qed

end
